theory Spec2Isabelle
  imports Complex_Main
begin

section \<open>Conventions of the embedding\<close>

text \<open>
  The four calculators (\<^verbatim>\<open>apps/compound\<close>, \<^verbatim>\<open>apps/drawdown\<close>, \<^verbatim>\<open>apps/fire\<close>,
  \<^verbatim>\<open>apps/mortgage\<close>) are embedded as HOL functions.  Python \<^verbatim>\<open>float\<close> values are
  idealised as \<^typ>\<open>real\<close> (no rounding error, no overflow, no NaN); Python \<^verbatim>\<open>int\<close> is
  \<^typ>\<open>int\<close>; list lengths and indices that the source keeps non-negative are
  \<^typ>\<open>nat\<close>.  Every exception the source can raise on the modelled paths is a value
  of \<open>error\<close>; \<open>Unmodelled\<close> marks inputs on which the source goes on with
  values that the real-valued embedding has no counterpart for.
\<close>

datatype error = ZeroDivisionError | IndexError | ValueError | ValidationError | Unmodelled

section \<open>Shared helpers\<close>

text \<open>
  \<^verbatim>\<open>np.round(x, d)\<close> for \<open>d \<ge> 0\<close>: scale by \<open>10^d\<close>, round half to even
  (\<^verbatim>\<open>rint\<close>), scale back.
\<close>

definition rint :: "real \<Rightarrow> int" where
  "rint x =
     (let f = \<lfloor>x\<rfloor>; r = x - of_int f
      in if r < 1 / 2 then f
         else if 1 / 2 < r then f + 1
         else if even f then f else f + 1)"

definition round_float :: "real \<Rightarrow> nat \<Rightarrow> real" where
  "round_float x d = of_int (rint (x * 10 ^ d)) / 10 ^ d"

definition round_list :: "real list \<Rightarrow> nat \<Rightarrow> real list" where
  "round_list xs d = map (\<lambda>x. round_float x d) xs"

text \<open>Calendar dates, \<^verbatim>\<open>calendar.monthrange(y, m)[1]\<close> and \<^verbatim>\<open>add_months\<close>.\<close>

record date =
  d_year :: int
  d_month :: int
  d_day :: int

definition isleap :: "int \<Rightarrow> bool" where
  "isleap y = (y mod 4 = 0 \<and> (y mod 100 \<noteq> 0 \<or> y mod 400 = 0))"

definition days_in_month :: "int \<Rightarrow> int \<Rightarrow> int" where
  "days_in_month y m =
     (if m = 2 then (if isleap y then 29 else 28)
      else if m = 4 \<or> m = 6 \<or> m = 9 \<or> m = 11 then 30 else 31)"

text \<open>
  \<^verbatim>\<open>date(y, m, day)\<close> raises \<^verbatim>\<open>ValueError\<close> when the year leaves \<open>1..9999\<close>; the
  month is in \<open>1..12\<close> by construction and the day is capped by the month's length.
\<close>

definition add_months :: "date \<Rightarrow> int \<Rightarrow> error + date" where
  "add_months d months =
     (let y = d_year d + (d_month d - 1 + months) div 12;
          m = (d_month d - 1 + months) mod 12 + 1;
          day = min (d_day d) (days_in_month y m)
      in if 1 \<le> y \<and> y \<le> 9999
         then Inr \<lparr>d_year = y, d_month = m, d_day = day\<rparr>
         else Inl ValueError)"

text \<open>Exceptions propagate: the rest of the computation runs only on a value.\<close>

definition bind_err :: "error + 'a \<Rightarrow> ('a \<Rightarrow> error + 'b) \<Rightarrow> error + 'b" where
  "bind_err r f = (case r of Inl e \<Rightarrow> Inl e | Inr v \<Rightarrow> f v)"

text \<open>A list comprehension whose body may raise: the first exception wins.\<close>

fun sequence_list :: "(error + 'a) list \<Rightarrow> error + 'a list" where
  "sequence_list [] = Inr []"
| "sequence_list (x # xs) =
     (case x of Inl e \<Rightarrow> Inl e
      | Inr v \<Rightarrow> (case sequence_list xs of Inl e \<Rightarrow> Inl e | Inr vs \<Rightarrow> Inr (v # vs)))"

definition labels_of :: "date \<Rightarrow> nat \<Rightarrow> error + date list" where
  "labels_of start_d n = sequence_list (map (\<lambda>m. add_months start_d (int m)) [0..<n])"

section \<open>Amortization calculator (apps/mortgage/backend/main.py)\<close>

text \<open>
  \<^verbatim>\<open>_pmt\<close>.  Python float division by \<open>0.0\<close> and \<open>0.0 ** (-n)\<close> raise
  \<^verbatim>\<open>ZeroDivisionError\<close>; both are branches here.
\<close>

definition pmt :: "real \<Rightarrow> real \<Rightarrow> int \<Rightarrow> error + real" where
  "pmt balance i n =
     (if n \<le> 0 then Inr balance
      else if \<bar>i\<bar> < 1 / 10 ^ 12 then Inr (balance / of_int n)
      else if 1 + i = 0 then Inl ZeroDivisionError
      else if 1 - (1 + i) powi (- n) = 0 then Inl ZeroDivisionError
      else Inr (balance * i / (1 - (1 + i) powi (- n))))"

record ExtraPayment =
  year :: int
  month :: int
  amount :: real

record MortgageRequest =
  principal :: real
  term_years :: int
  fixed_years :: int
  fixed_rate :: real
  variable_rate :: real
  monthly_overpayment :: real
  extra_payments :: "ExtraPayment list option"
  start_date :: "date option"
  recalc_on_rate_change :: bool
  decimals :: int

text \<open>The five lists that \<^verbatim>\<open>_amortize\<close> grows, with the loop variables \<open>bal\<close> and \<open>pmt\<close>.\<close>

record amort =
  bal :: real
  cur_pmt :: real
  balances :: "real list"
  sched :: "real list"
  totalp :: "real list"
  interest :: "real list"
  principal_paid :: "real list"

text \<open>
  One pass through the body of \<^verbatim>\<open>for m in range(1, term_m + 1)\<close>, up to the
  assignment \<^verbatim>\<open>bal = new_bal\<close>.
\<close>

definition amortize_step ::
  "int \<Rightarrow> int \<Rightarrow> real \<Rightarrow> real \<Rightarrow> real \<Rightarrow> (int \<rightharpoonup> real) \<Rightarrow> bool \<Rightarrow> int \<Rightarrow> amort \<Rightarrow> error + amort"
where
  "amortize_step term_m fixed_m i_fixed i_var monthly_overpay extra_map recalc_on_change m st =
     (let current_rate = (if m \<le> fixed_m then i_fixed else i_var) in
      case (if recalc_on_change \<and> m = fixed_m + 1
            then pmt (bal st) current_rate (term_m - (m - 1))
            else Inr (cur_pmt st)) of
        Inl e \<Rightarrow> Inl e
      | Inr p \<Rightarrow>
          let intr = bal st * current_rate;
              lump = (case extra_map m of None \<Rightarrow> 0 | Some v \<Rightarrow> v);
              pay_total = p + monthly_overpay + lump;
              new_bal0 = bal st + intr - pay_total;
              princ_actual = pay_total - intr;
              new_bal = (if new_bal0 < 0 \<and> - (1 / 10 ^ 6) < new_bal0 then 0 else new_bal0)
          in Inr \<lparr>bal = new_bal, cur_pmt = p,
                  balances = balances st @ [new_bal],
                  sched = sched st @ [p],
                  totalp = totalp st @ [pay_total],
                  interest = interest st @ [intr],
                  principal_paid = principal_paid st @ [princ_actual]\<rparr>)"

text \<open>
  The loop from month \<open>m\<close> on: it ends when \<open>m\<close> passes \<open>term_m\<close>, or at the
  \<^verbatim>\<open>break\<close> once the balance is \<open>\<le> 0\<close>.
\<close>

function amortize_loop ::
  "int \<Rightarrow> int \<Rightarrow> real \<Rightarrow> real \<Rightarrow> real \<Rightarrow> (int \<rightharpoonup> real) \<Rightarrow> bool \<Rightarrow> int \<Rightarrow> amort \<Rightarrow> error + amort"
where
  "amortize_loop term_m fixed_m i_fixed i_var monthly_overpay extra_map recalc_on_change m st =
     (if term_m < m then Inr st
      else
        case amortize_step term_m fixed_m i_fixed i_var monthly_overpay extra_map
               recalc_on_change m st of
          Inl e \<Rightarrow> Inl e
        | Inr st' \<Rightarrow>
            if bal st' \<le> 0 then Inr st'
            else amortize_loop term_m fixed_m i_fixed i_var monthly_overpay extra_map
                   recalc_on_change (m + 1) st')"
  by pat_completeness auto
termination
  by (relation "measure (\<lambda>(term_m, fixed_m, i_fixed, i_var, ov, em, rc, m, st). nat (term_m + 1 - m))")
     auto

declare amortize_loop.simps [simp del]

definition amortize ::
  "real \<Rightarrow> int \<Rightarrow> int \<Rightarrow> real \<Rightarrow> real \<Rightarrow> real \<Rightarrow> (int \<rightharpoonup> real) \<Rightarrow> bool \<Rightarrow> error + amort"
where
  "amortize P term_m fixed_m fixed_r_yr var_r_yr monthly_overpay extra_map recalc_on_change =
     (let i_fixed = fixed_r_yr / 12; i_var = var_r_yr / 12 in
      case pmt P i_fixed term_m of
        Inl e \<Rightarrow> Inl e
      | Inr p \<Rightarrow>
          amortize_loop term_m fixed_m i_fixed i_var monthly_overpay extra_map recalc_on_change 1
            \<lparr>bal = P, cur_pmt = p, balances = [P], sched = [], totalp = [],
             interest = [], principal_paid = []\<rparr>)"

text \<open>
  The index an extra payment is keyed to, and the loop that fills \<^verbatim>\<open>extra_map\<close>
  (\<^verbatim>\<open>extra_map.get(idx, 0.0) + float(ep.amount)\<close> for indices in \<open>1..term_m\<close>).
\<close>

definition ep_index :: "ExtraPayment \<Rightarrow> int" where
  "ep_index ep = year ep * 12 + month ep + 1"

fun build_extra_map :: "int \<Rightarrow> ExtraPayment list \<Rightarrow> (int \<rightharpoonup> real) \<Rightarrow> (int \<rightharpoonup> real)" where
  "build_extra_map term_m [] em = em"
| "build_extra_map term_m (ep # eps) em =
     (let idx = ep_index ep in
      build_extra_map term_m eps
        (if 1 \<le> idx \<and> idx \<le> term_m
         then em(idx \<mapsto> (case em idx of None \<Rightarrow> 0 | Some v \<Rightarrow> v) + amount ep)
         else em))"

definition extra_map_of :: "int \<Rightarrow> ExtraPayment list option \<Rightarrow> (int \<rightharpoonup> real)" where
  "extra_map_of term_m eps =
     (case eps of None \<Rightarrow> Map.empty | Some xs \<Rightarrow> build_extra_map term_m xs Map.empty)"

text \<open>\<^verbatim>\<open>_pad\<close>: \<^verbatim>\<open>arr[-1]\<close> raises \<^verbatim>\<open>IndexError\<close> on an empty list.\<close>

definition pad :: "real list \<Rightarrow> nat \<Rightarrow> error + real list" where
  "pad arr L =
     (if L \<le> length arr then Inr (take L arr)
      else if arr = [] then Inl IndexError
      else Inr (arr @ replicate (L - length arr) (last arr)))"

text \<open>\<^verbatim>\<open>_payoff_month\<close>: the first index whose balance is \<open>\<le> 0\<close>, else the last index.\<close>

fun first_nonpos :: "nat \<Rightarrow> real list \<Rightarrow> nat option" where
  "first_nonpos i [] = None"
| "first_nonpos i (v # vs) = (if v \<le> 0 then Some i else first_nonpos (Suc i) vs)"

definition payoff_month :: "real list \<Rightarrow> int" where
  "payoff_month bals =
     (case first_nonpos 0 bals of Some i \<Rightarrow> int i | None \<Rightarrow> int (length bals) - 1)"

record MortgageSummary =
  payoff_months :: int
  payoff_date :: date
  baseline_payoff_months :: int
  baseline_payoff_date :: date
  total_interest :: real
  baseline_total_interest :: real
  interest_saved :: real
  months_saved :: int
  ending_balance :: real
  is_balloon :: bool
  fixed_months :: int

record MortgageResponse =
  labels :: "date list"
  balance :: "real list"
  baseline_balance :: "real list"
  schedule_payment :: "real list"
  total_payment :: "real list"
  resp_interest :: "real list"
  resp_principal :: "real list"
  summary :: MortgageSummary

text \<open>
  The handler \<^verbatim>\<open>mortgage\<close>.  \<open>today\<close> stands for \<^verbatim>\<open>date.today()\<close>.  The unrounded
  series of the main run are kept next to the response (\<open>mortgage_run\<close>) so that
  statements about unrounded values can be made.
\<close>

definition mortgage_run :: "date \<Rightarrow> MortgageRequest \<Rightarrow> error + (amort \<times> amort \<times> MortgageResponse)" where
  "mortgage_run today req =
     (let P = principal req;
          term_m = term_years req * 12;
          fixed_m = fixed_years req * 12;
          fixed_r = fixed_rate req;
          var_r = variable_rate req;
          overpay = monthly_overpayment req;
          start_d = (case start_date req of Some sd \<Rightarrow> sd | None \<Rightarrow> today);
          d = nat (max 0 (decimals req));
          extra_map = extra_map_of term_m (extra_payments req)
      in
      bind_err (amortize P term_m fixed_m fixed_r var_r overpay extra_map (recalc_on_rate_change req)) (\<lambda>a.
      bind_err (amortize P term_m fixed_m fixed_r var_r 0 Map.empty (recalc_on_rate_change req)) (\<lambda>b.
      let L = max (length (balances a)) (length (balances b)) in
      bind_err (labels_of start_d L) (\<lambda>lbls.
      bind_err (pad (balances a) L) (\<lambda>balances'.
      bind_err (pad (balances b) L) (\<lambda>baseline_balance'.
      bind_err (pad (sched a) (L - 1)) (\<lambda>sched'.
      bind_err (pad (totalp a) (L - 1)) (\<lambda>totalp'.
      bind_err (pad (interest a) (L - 1)) (\<lambda>intr'.
      bind_err (pad (principal_paid a) (L - 1)) (\<lambda>princ'.
      let m_off = payoff_month balances';
          m_base = payoff_month (balances b);
          total_interest' = sum_list intr';
          baseline_interest = sum_list (interest b);
          interest_saved' = max 0 (baseline_interest - total_interest');
          months_saved' = max 0 (m_base - m_off)
      in
      if balances' = [] then Inl IndexError
      else
      let ending_balance' = last balances' in
      bind_err (add_months start_d m_off) (\<lambda>pd.
      bind_err (add_months start_d m_base) (\<lambda>bpd.
      Inr (a, b,
        \<lparr>labels = lbls,
         balance = round_list balances' d,
         baseline_balance = round_list baseline_balance' d,
         schedule_payment = round_list (0 # sched') d,
         total_payment = round_list (0 # totalp') d,
         resp_interest = round_list (0 # intr') d,
         resp_principal = round_list (0 # princ') d,
         summary =
           \<lparr>payoff_months = m_off,
            payoff_date = pd,
            baseline_payoff_months = m_base,
            baseline_payoff_date = bpd,
            total_interest = round_float total_interest' d,
            baseline_total_interest = round_float baseline_interest d,
            interest_saved = round_float interest_saved' d,
            months_saved = months_saved',
            ending_balance = round_float ending_balance' d,
            is_balloon = (0 < ending_balance'),
            fixed_months = fixed_m\<rparr>\<rparr>)))))))))))))"

definition mortgage :: "date \<Rightarrow> MortgageRequest \<Rightarrow> error + MortgageResponse" where
  "mortgage today req =
     (case mortgage_run today req of Inl e \<Rightarrow> Inl e | Inr (a, b, resp) \<Rightarrow> Inr resp)"

section \<open>Shared numerical helpers of the simulators\<close>

text \<open>
  The global NumPy generator.  Its algorithm is not part of the repository: \<open>rng_seed\<close>
  is the state that \<^verbatim>\<open>np.random.seed(s)\<close> installs for an integer \<open>s\<close>, and
  \<open>rng_gauss\<close> draws one standard normal value and advances the state.  Both are
  parameters of every simulator.
\<close>

record 'g rng =
  rng_seed :: "int \<Rightarrow> 'g"
  rng_gauss :: "'g \<Rightarrow> real \<times> 'g"

fun draws :: "'g rng \<Rightarrow> nat \<Rightarrow> 'g \<Rightarrow> real list \<times> 'g" where
  "draws R 0 g = ([], g)"
| "draws R (Suc k) g =
     (case rng_gauss R g of (z, g1) \<Rightarrow>
        (case draws R k g1 of (zs, g2) \<Rightarrow> (z # zs, g2)))"

text \<open>\<^verbatim>\<open>np.random.randn(n, T)\<close>: \<open>n\<close> rows of \<open>T\<close> draws, filled row by row.\<close>

fun randn :: "'g rng \<Rightarrow> nat \<Rightarrow> nat \<Rightarrow> 'g \<Rightarrow> real list list \<times> 'g" where
  "randn R 0 T g = ([], g)"
| "randn R (Suc n) T g =
     (case draws R T g of (row, g1) \<Rightarrow>
        (case randn R n T g1 of (rows, g2) \<Rightarrow> (row # rows, g2)))"

text \<open>
  \<^verbatim>\<open>np.percentile(xs, q)\<close> with the default linear interpolation between order
  statistics, for a non-empty \<open>xs\<close> and \<open>0 \<le> q \<le> 100\<close>.
\<close>

definition percentile :: "real list \<Rightarrow> real \<Rightarrow> real" where
  "percentile xs q =
     (let s = sort xs;
          n = length xs;
          h = q / 100 * real (n - 1);
          lo = nat \<lfloor>h\<rfloor>;
          hi = min (lo + 1) (n - 1);
          gam = h - real lo
      in s ! lo + (s ! hi - s ! lo) * gam)"

text \<open>Column \<open>j\<close> of a matrix given by its rows, and \<^verbatim>\<open>np.percentile(m, q, axis=0)\<close>.\<close>

definition column :: "real list list \<Rightarrow> nat \<Rightarrow> real list" where
  "column m j = map (\<lambda>row. row ! j) m"

definition percentile_axis0 :: "real list list \<Rightarrow> nat \<Rightarrow> real \<Rightarrow> real list" where
  "percentile_axis0 m ncols q = map (\<lambda>j. percentile (column m j) q) [0..<ncols]"

text \<open>\<^verbatim>\<open>np.mean\<close>, \<^verbatim>\<open>np.median\<close>, \<^verbatim>\<open>np.maximum.accumulate\<close>, \<^verbatim>\<open>np.argmin\<close>, minimum.\<close>

definition mean :: "real list \<Rightarrow> real" where
  "mean xs = sum_list xs / real (length xs)"

definition median :: "real list \<Rightarrow> real" where
  "median xs = percentile xs 50"

fun accumulate_from :: "real \<Rightarrow> real list \<Rightarrow> real list" where
  "accumulate_from a [] = []"
| "accumulate_from a (x # xs) = max a x # accumulate_from (max a x) xs"

definition maximum_accumulate :: "real list \<Rightarrow> real list" where
  "maximum_accumulate xs = (case xs of [] \<Rightarrow> [] | x # rest \<Rightarrow> x # accumulate_from x rest)"

fun argmin_from :: "nat \<Rightarrow> real \<Rightarrow> nat \<Rightarrow> real list \<Rightarrow> nat" where
  "argmin_from best v i [] = best"
| "argmin_from best v i (x # xs) =
     (if x < v then argmin_from i x (Suc i) xs else argmin_from best v (Suc i) xs)"

definition argmin :: "real list \<Rightarrow> nat" where
  "argmin xs = (case xs of [] \<Rightarrow> 0 | x # rest \<Rightarrow> argmin_from 0 x 1 rest)"

definition list_min :: "real list \<Rightarrow> real" where
  "list_min xs = (case xs of [] \<Rightarrow> 0 | x # rest \<Rightarrow> fold min rest x)"

text \<open>
  \<^verbatim>\<open>np.nan_to_num\<close> replaces NaN and the infinities; on the finite values that the
  real-valued embedding has, it changes nothing.
\<close>

definition nan_to_num :: "real \<Rightarrow> real" where
  "nan_to_num x = x"

definition sanitize_float :: "real \<Rightarrow> real" where
  "sanitize_float x = nan_to_num x"

definition sanitize_list :: "real list \<Rightarrow> real list" where
  "sanitize_list xs = map nan_to_num xs"

text \<open>The five percentile bands that all three simulators report.\<close>

record Bands =
  p10 :: "real list"
  p25 :: "real list"
  p50 :: "real list"
  p75 :: "real list"
  p90 :: "real list"

section \<open>Compound-growth calculator (apps/compound/backend/main.py)\<close>

record SimRequest =
  initial :: real
  annual_contribution :: real
  contribution_growth :: real
  years :: int
  n_sims :: int
  expected_return :: real
  volatility :: real
  expense_ratio :: real
  inflation :: real
  target :: "real option"
  frequency :: int
  seed :: "int option"

text \<open>
  The bounds that the \<^verbatim>\<open>Field(...)\<close> declarations of \<^verbatim>\<open>SimRequest\<close> put on its
  fields: building a \<^verbatim>\<open>SimRequest\<close> that violates one raises a validation error.
\<close>

definition SimRequest_valid :: "SimRequest \<Rightarrow> bool" where
  "SimRequest_valid req =
     (0 \<le> initial req \<and> 0 \<le> annual_contribution req \<and> 0 \<le> contribution_growth req \<and>
      1 \<le> years req \<and> years req \<le> 80 \<and>
      50 \<le> n_sims req \<and> n_sims req \<le> 20000 \<and>
      0 \<le> expense_ratio req \<and> 0 \<le> inflation req \<and>
      (case target req of None \<Rightarrow> True | Some t \<Rightarrow> 0 \<le> t) \<and>
      1 \<le> frequency req \<and> frequency req \<le> 12)"

text \<open>
  The contribution schedule: \<^verbatim>\<open>contrib_per_year\<close>, divided by the frequency and
  repeated \<^verbatim>\<open>frequency\<close> times by \<^verbatim>\<open>np.repeat\<close>.
\<close>

definition contrib_per_year :: "real \<Rightarrow> real \<Rightarrow> nat \<Rightarrow> real list" where
  "contrib_per_year annual g yrs = map (\<lambda>y. annual * (1 + g) ^ y) [0..<yrs]"

definition contrib_schedule :: "real \<Rightarrow> real \<Rightarrow> nat \<Rightarrow> nat \<Rightarrow> real list" where
  "contrib_schedule annual g yrs freq =
     concat (map (\<lambda>c. replicate freq (c / real freq)) (contrib_per_year annual g yrs))"

text \<open>
  One wealth path: \<^verbatim>\<open>wealth[t] = wealth[t-1] * growth_factors[t-1] + contrib_schedule[t-1]\<close>,
  over the pairs of growth factor and contribution.
\<close>

fun wealth_row :: "real \<Rightarrow> (real \<times> real) list \<Rightarrow> real list" where
  "wealth_row w [] = [w]"
| "wealth_row w ((f, c) # rest) = w # wealth_row (w * f + c) rest"

text \<open>
  The inputs on which \<^verbatim>\<open>simulate_paths\<close> raises or leaves the real numbers:
  \<^verbatim>\<open>1 / req.frequency\<close> divides by zero; \<^verbatim>\<open>np.repeat\<close> and
  \<^verbatim>\<open>np.random.normal\<close> raise \<^verbatim>\<open>ValueError\<close> on a negative repeat count, a negative
  dimension or a negative scale; an empty ensemble and a non-positive inflation base
  give NaN.
\<close>

definition simulate_guard :: "SimRequest \<Rightarrow> error option" where
  "simulate_guard req =
     (if frequency req = 0 then Some ZeroDivisionError
      else if frequency req < 0 \<or> years req < 0 \<or> n_sims req < 0 \<or> volatility req < 0
        then Some ValueError
      else if n_sims req = 0 \<or> 1 + inflation req \<le> 0 then Some Unmodelled
      else None)"

text \<open>
  The first part of \<^verbatim>\<open>simulate_paths\<close>: seeding, the schedule, the shocks and the
  wealth matrix.  \<open>env\<close> is the state that \<^verbatim>\<open>np.random.seed(None)\<close> installs from
  the operating system's entropy.  The result is the wealth matrix, the contribution
  schedule and the generator's state afterwards.
\<close>

definition simulate_wealth ::
  "'g rng \<Rightarrow> 'g \<Rightarrow> SimRequest \<Rightarrow> real list list \<times> real list \<times> 'g"
where
  "simulate_wealth R env req =
     (let g0 = (case seed req of Some s \<Rightarrow> rng_seed R s | None \<Rightarrow> env);
          T = nat (years req * frequency req);
          dt = 1 / real_of_int (frequency req);
          mu_net = expected_return req - expense_ratio req;
          drift = (mu_net - 0.5 * (volatility req)\<^sup>2) * dt;
          vol = volatility req * sqrt dt;
          cs = contrib_schedule (annual_contribution req) (contribution_growth req)
                 (nat (years req)) (nat (frequency req))
      in case randn R (nat (n_sims req)) T g0 of (z, g1) \<Rightarrow>
           let shocks = map (map (\<lambda>x. drift + vol * x)) z;
               growth_factors = map (map exp) shocks;
               wealth = map (\<lambda>fs. wealth_row (initial req) (zip fs cs)) growth_factors
           in (wealth, cs, g1))"

record SimBands = Bands +
  p50_real :: "real list"

record SimSummary =
  expected_final :: real
  median_final :: real
  p10_final :: real
  p90_final :: real
  prob_hit_target :: "real option"

record SimInsights =
  median_cagr :: real
  median_max_drawdown :: real
  total_contrib :: real
  real_median_final :: real

text \<open>
  The advisory strings, with the two numbers that the first one formats kept as
  numbers: the percentage \<open>(ratio - 1) * 100\<close> and \<open>contribution_growth * 100\<close>.
\<close>

datatype suggestion =
  IncreaseContributions real real
| OnTrack
| ExpenseRatioHigh
| VolatilityHigh

record SimResponse =
  times :: "nat list"
  percentiles :: SimBands
  summary :: SimSummary
  insights :: SimInsights
  suggestions :: "suggestion list"

text \<open>The drawdown of the median path and its CAGR, as \<^verbatim>\<open>simulate_paths\<close> computes them.\<close>

definition median_path_max_dd :: "real list \<Rightarrow> real" where
  "median_path_max_dd median_path =
     (let running_max = maximum_accumulate median_path;
          safe_den = map (\<lambda>x. if x \<le> 0 then 1 else x) running_max;
          drawdowns = map (\<lambda>(m, r, s). (m - r) / s) (zip median_path (zip running_max safe_den))
      in if 1 < length drawdowns then list_min (tl drawdowns) else 0)"

definition first_positive :: "real list \<Rightarrow> nat" where
  "first_positive xs = (case find (\<lambda>i. 0 < xs ! i) [0..<length xs] of None \<Rightarrow> 0 | Some i \<Rightarrow> i)"

definition median_path_cagr :: "real list \<Rightarrow> int \<Rightarrow> real" where
  "median_path_cagr median_path freq =
     (if 0 < last median_path then
        let pos_idx = first_positive median_path in
        if 0 < median_path ! pos_idx then
          let years_elapsed = real (length median_path - 1 - pos_idx) / real_of_int freq
          in (last median_path / median_path ! pos_idx) powr (1 / max years_elapsed (1 / 10 ^ 9)) - 1
        else 0
      else 0)"

definition suggestions_of :: "SimRequest \<Rightarrow> real \<Rightarrow> suggestion list" where
  "suggestions_of req median_final' =
     (case target req of
        None \<Rightarrow> []
      | Some t \<Rightarrow>
          if t = 0 then []
          else
            let ratio = t / (median_final' + 1 / 10 ^ 9) in
            if 1.05 < ratio
              then [IncreaseContributions ((ratio - 1) * 100) (contribution_growth req * 100)]
            else if ratio < 0.9 then [OnTrack]
            else [])
     @ (if 0.002 < expense_ratio req then [ExpenseRatioHigh] else [])
     @ (if 0.22 < volatility req then [VolatilityHigh] else [])"

text \<open>The second part of \<^verbatim>\<open>simulate_paths\<close>: the reduction of the wealth matrix.\<close>

definition simulate_report :: "SimRequest \<Rightarrow> real list list \<Rightarrow> real list \<Rightarrow> SimResponse" where
  "simulate_report req wealth cs =
     (let T = nat (years req * frequency req);
          dt = 1 / real_of_int (frequency req);
          inflation_factor = map (\<lambda>t. (1 + inflation req) powr (real t * dt)) [0..<T + 1];
          wealth_real = map (\<lambda>row. map (\<lambda>(w, f). w / f) (zip row inflation_factor)) wealth;
          tolist_safe = map nan_to_num;
          pc = \<lparr>p10 = tolist_safe (percentile_axis0 wealth (T + 1) 10),
                p25 = tolist_safe (percentile_axis0 wealth (T + 1) 25),
                p50 = tolist_safe (percentile_axis0 wealth (T + 1) 50),
                p75 = tolist_safe (percentile_axis0 wealth (T + 1) 75),
                p90 = tolist_safe (percentile_axis0 wealth (T + 1) 90),
                p50_real = tolist_safe (percentile_axis0 wealth_real (T + 1) 50)\<rparr>;
          final = map last wealth;
          sm = \<lparr>expected_final = nan_to_num (mean final),
                median_final = nan_to_num (median final),
                p10_final = nan_to_num (percentile final 10),
                p90_final = nan_to_num (percentile final 90),
                prob_hit_target =
                  (case target req of None \<Rightarrow> None
                   | Some t \<Rightarrow> Some (real (length (filter (\<lambda>w. t \<le> w) final)) / real (length final)))\<rparr>;
          median_path = p50 pc;
          max_dd = median_path_max_dd median_path;
          cagr = median_path_cagr median_path (frequency req);
          ins = \<lparr>median_cagr = nan_to_num cagr,
                 median_max_drawdown = nan_to_num max_dd,
                 total_contrib = sum_list cs,
                 real_median_final = last (p50_real pc)\<rparr>
      in \<lparr>times = [0..<T + 1],
          percentiles = pc,
          summary = sm,
          insights = ins,
          suggestions = suggestions_of req (median_final sm)\<rparr>)"

definition simulate_paths :: "'g rng \<Rightarrow> 'g \<Rightarrow> SimRequest \<Rightarrow> error + (SimResponse \<times> 'g)" where
  "simulate_paths R env req =
     (case simulate_guard req of
        Some e \<Rightarrow> Inl e
      | None \<Rightarrow>
          (case simulate_wealth R env req of (wealth, cs, g1) \<Rightarrow>
             Inr (simulate_report req wealth cs, g1)))"

text \<open>
  The endpoint \<^verbatim>\<open>simulate\<close>: the request is built as a \<^verbatim>\<open>SimRequest\<close>, which checks
  the field bounds, and handed to \<^verbatim>\<open>simulate_paths\<close>.
\<close>

definition simulate :: "'g rng \<Rightarrow> 'g \<Rightarrow> SimRequest \<Rightarrow> error + (SimResponse \<times> 'g)" where
  "simulate R env req =
     (if SimRequest_valid req then simulate_paths R env req else Inl ValidationError)"

section \<open>Drawdown calculator (apps/drawdown/backend/main.py)\<close>

record DrawdownRequest =
  years :: int
  expected_return :: real
  volatility :: real
  expense_ratio :: real
  n_sims :: int
  frequency :: int
  start_date :: "date option"
  decimals :: int
  seed :: "int option"

text \<open>\<^verbatim>\<open>np.cumprod\<close> along a row, and the price path that starts at \<open>1\<close>.\<close>

fun cumprod_from :: "real \<Rightarrow> real list \<Rightarrow> real list" where
  "cumprod_from a [] = []"
| "cumprod_from a (f # fs) = a * f # cumprod_from (a * f) fs"

definition price_row :: "real list \<Rightarrow> real list" where
  "price_row factors = 1 # cumprod_from 1 factors"

text \<open>\<^verbatim>\<open>(prices - rolling_peak) / rolling_peak\<close> along one row.\<close>

definition dd_row :: "real list \<Rightarrow> real list" where
  "dd_row prices = map (\<lambda>(p, k). (p - k) / k) (zip prices (maximum_accumulate prices))"

text \<open>
  The recovery computation on the median path: the trough is the \<^verbatim>\<open>argmin\<close> of the
  drawdown, \<open>rec_idx\<close> starts at the trough and is moved by the scan to the first
  index from the trough on whose value reaches \<open>prev_peak\<close>.
\<close>

definition trough_idx :: "real list \<Rightarrow> nat" where
  "trough_idx med_path = argmin (dd_row med_path)"

definition prev_peak :: "real list \<Rightarrow> real" where
  "prev_peak med_path = maximum_accumulate med_path ! trough_idx med_path"

definition rec_idx :: "real list \<Rightarrow> nat" where
  "rec_idx med_path =
     (case find (\<lambda>j. prev_peak med_path \<le> med_path ! j)
             [trough_idx med_path..<length med_path] of
        None \<Rightarrow> trough_idx med_path
      | Some j \<Rightarrow> j)"

definition recovery_months :: "real list \<Rightarrow> int" where
  "recovery_months med_path = max 0 (int (rec_idx med_path) - int (trough_idx med_path))"

text \<open>
  The inputs on which \<^verbatim>\<open>drawdown\<close> raises or leaves the real numbers: a zero
  frequency divides by zero, a negative dimension makes \<^verbatim>\<open>np.random.randn\<close> raise, a
  negative frequency gives \<^verbatim>\<open>sqrt\<close> of a negative number and an empty ensemble gives
  NaN statistics.
\<close>

definition drawdown_guard :: "DrawdownRequest \<Rightarrow> error option" where
  "drawdown_guard req =
     (if frequency req = 0 then Some ZeroDivisionError
      else if n_sims req < 0 \<or> years req * frequency req < 0 then Some ValueError
      else if frequency req < 0 \<or> n_sims req = 0 then Some Unmodelled
      else None)"

text \<open>
  The price matrix.  \<open>g\<close> is the state of the global generator before the call: it is
  replaced only when the request has a seed.
\<close>

definition drawdown_prices ::
  "'g rng \<Rightarrow> 'g \<Rightarrow> DrawdownRequest \<Rightarrow> real list list \<times> 'g"
where
  "drawdown_prices R g req =
     (let g0 = (case seed req of Some s \<Rightarrow> rng_seed R s | None \<Rightarrow> g);
          T = nat (years req * frequency req);
          dt = 1 / real_of_int (frequency req);
          mu_net = expected_return req - expense_ratio req;
          sigma = volatility req;
          drift = (mu_net - 0.5 * sigma * sigma) * dt
      in case randn R (nat (n_sims req)) T g0 of (z, g1) \<Rightarrow>
           let shock = map (map (\<lambda>x. sigma * sqrt dt * x)) z;
               factors = map (map (\<lambda>s. exp (drift + s))) shock
           in (map price_row factors, g1))"

record DrawdownSummary =
  median_max_drawdown :: real
  p10_max_drawdown :: real
  p90_max_drawdown :: real
  median_recovery_months :: int

record DrawdownResponse =
  labels :: "date list"
  percentiles :: Bands
  summary :: DrawdownSummary

definition drawdown ::
  "'g rng \<Rightarrow> 'g \<Rightarrow> date \<Rightarrow> DrawdownRequest \<Rightarrow> error + (DrawdownResponse \<times> 'g)"
where
  "drawdown R g today req =
     (case drawdown_guard req of
        Some e \<Rightarrow> Inl e
      | None \<Rightarrow>
          (case drawdown_prices R g req of (prices, g1) \<Rightarrow>
             let T = nat (years req * frequency req);
                 dd = map dd_row prices;
                 max_dd_per_path = map list_min dd;
                 med_path = percentile_axis0 prices (T + 1) 50;
                 start_d = (case start_date req of Some sd \<Rightarrow> sd | None \<Rightarrow> today);
                 d = nat (max 0 (decimals req))
             in bind_err (labels_of start_d (T + 1)) (\<lambda>lbls.
                Inr (\<lparr>labels = lbls,
                      percentiles =
                        \<lparr>p10 = round_list (sanitize_list (percentile_axis0 dd (T + 1) 10)) d,
                         p25 = round_list (sanitize_list (percentile_axis0 dd (T + 1) 25)) d,
                         p50 = round_list (sanitize_list (percentile_axis0 dd (T + 1) 50)) d,
                         p75 = round_list (sanitize_list (percentile_axis0 dd (T + 1) 75)) d,
                         p90 = round_list (sanitize_list (percentile_axis0 dd (T + 1) 90)) d\<rparr>,
                      summary =
                        \<lparr>median_max_drawdown =
                           round_float (sanitize_float (median max_dd_per_path)) d,
                         p10_max_drawdown =
                           round_float (sanitize_float (percentile max_dd_per_path 10)) d,
                         p90_max_drawdown =
                           round_float (sanitize_float (percentile max_dd_per_path 90)) d,
                         median_recovery_months = recovery_months med_path\<rparr>\<rparr>, g1))))"

section \<open>Retirement calculator (apps/fire/backend/main.py)\<close>

record FireRequest =
  initial_balance :: real
  monthly_disposable :: real
  monthly_drawdown :: real
  years_to_retire :: int
  years_in_retirement :: int
  expected_return_accum :: real
  expected_return_ret :: real
  volatility :: real
  inflation :: real
  expense_ratio :: real
  n_sims :: int
  frequency :: int
  start_date :: "date option"
  decimals :: int
  seed :: "int option"

text \<open>
  The two schedule loops: the amount is written for \<open>k\<close> more periods, \<open>m\<close> counts the
  periods since the loop's first, and the amount is multiplied by \<open>1 + inflation\<close>
  after every period whose number \<open>m + 1\<close> is a multiple of \<open>12\<close>.
\<close>

fun grow_schedule :: "real \<Rightarrow> nat \<Rightarrow> nat \<Rightarrow> real \<Rightarrow> real list" where
  "grow_schedule infl m 0 amt = []"
| "grow_schedule infl m (Suc k) amt =
     amt # grow_schedule infl (m + 1) k (if (m + 1) mod 12 = 0 then amt * (1 + infl) else amt)"

definition fire_contrib :: "FireRequest \<Rightarrow> real list" where
  "fire_contrib req =
     (let T_acc = nat (years_to_retire req * frequency req);
          T_ret = nat (years_in_retirement req * frequency req)
      in grow_schedule (inflation req) 0 T_acc (monthly_disposable req) @ replicate T_ret 0)"

definition fire_draw :: "FireRequest \<Rightarrow> real list" where
  "fire_draw req =
     (let T_acc = nat (years_to_retire req * frequency req);
          T_ret = nat (years_in_retirement req * frequency req)
      in replicate T_acc 0 @ grow_schedule (inflation req) 0 T_ret (monthly_drawdown req))"

text \<open>
  One wealth path with the floor at zero:
  \<^verbatim>\<open>wealth[t] = max(wealth[t-1] * factors[t-1] + contrib[t-1] - draw[t-1], 0)\<close>,
  over the pairs of factor and net flow.
\<close>

fun fire_wealth_row :: "real \<Rightarrow> (real \<times> real) list \<Rightarrow> real list" where
  "fire_wealth_row w [] = [w]"
| "fire_wealth_row w ((f, flow) # rest) = w # fire_wealth_row (max (w * f + flow) 0) rest"

text \<open>
  The inputs on which \<^verbatim>\<open>fire\<close> raises or is not modelled: a zero frequency divides
  by zero; a negative total horizon makes \<^verbatim>\<open>np.zeros\<close> raise and an ensemble without
  paths ends in \<^verbatim>\<open>int(nan)\<close>; with a negative frequency or a negative phase length
  the source takes \<^verbatim>\<open>sqrt\<close> of a negative number or indexes its arrays from the end.
\<close>

definition fire_guard :: "FireRequest \<Rightarrow> error option" where
  "fire_guard req =
     (let T_acc = years_to_retire req * frequency req;
          T_ret = years_in_retirement req * frequency req
      in if frequency req = 0 then Some ZeroDivisionError
         else if T_acc + T_ret < 0 \<or> n_sims req \<le> 0 then Some ValueError
         else if frequency req < 0 \<or> T_acc < 0 \<or> T_ret < 0 then Some Unmodelled
         else None)"

definition fire_wealth :: "'g rng \<Rightarrow> 'g \<Rightarrow> FireRequest \<Rightarrow> real list list \<times> 'g" where
  "fire_wealth R g req =
     (let g0 = (case seed req of Some s \<Rightarrow> rng_seed R s | None \<Rightarrow> g);
          T_acc = nat (years_to_retire req * frequency req);
          T_ret = nat (years_in_retirement req * frequency req);
          T = T_acc + T_ret;
          dt = 1 / real_of_int (frequency req);
          contrib = fire_contrib req;
          draw = fire_draw req;
          sigma = volatility req;
          mu_acc = expected_return_accum req - expense_ratio req;
          mu_ret = expected_return_ret req - expense_ratio req
      in case randn R (nat (n_sims req)) T g0 of (z, g1) \<Rightarrow>
           let shock = map (map (\<lambda>x. sigma * sqrt dt * x)) z;
               drift_acc = (mu_acc - 0.5 * sigma * sigma) * dt;
               drift_ret = (mu_ret - 0.5 * sigma * sigma) * dt;
               factors = map (\<lambda>row. map (\<lambda>s. exp (drift_acc + s)) (take T_acc row)
                                    @ map (\<lambda>s. exp (drift_ret + s)) (drop T_acc row)) shock;
               flow = map (\<lambda>(c, w). c - w) (zip contrib draw);
               wealth = map (\<lambda>fs. fire_wealth_row (initial_balance req) (zip fs flow)) factors
           in (wealth, g1))"

text \<open>
  The longevity of one path: the first index in \<open>T_acc + 1 .. T\<close> with wealth
  \<open>\<le> 0\<close>, counted from \<open>T_acc\<close>, else the whole retirement \<open>T_ret\<close>.
\<close>

definition time_to_zero :: "nat \<Rightarrow> nat \<Rightarrow> real list \<Rightarrow> int" where
  "time_to_zero T_acc T_ret path =
     (case find (\<lambda>t. path ! t \<le> 0) [T_acc + 1..<T_acc + T_ret + 1] of
        None \<Rightarrow> int T_ret
      | Some zero_idx \<Rightarrow> max 0 (int zero_idx - int T_acc))"

text \<open>\<^verbatim>\<open>int(x)\<close> on a float truncates towards zero.\<close>

definition trunc :: "real \<Rightarrow> int" where
  "trunc x = (if 0 \<le> x then \<lfloor>x\<rfloor> else \<lceil>x\<rceil>)"

record FireSummary =
  median_terminal :: real
  prob_nonzero_end :: real
  median_lasting_months :: int
  retirement_start_index :: int

record FireResponse =
  labels :: "date list"
  percentiles :: Bands
  summary :: FireSummary

definition fire :: "'g rng \<Rightarrow> 'g \<Rightarrow> date \<Rightarrow> FireRequest \<Rightarrow> error + (FireResponse \<times> 'g)" where
  "fire R g today req =
     (case fire_guard req of
        Some e \<Rightarrow> Inl e
      | None \<Rightarrow>
          (case fire_wealth R g req of (wealth, g1) \<Rightarrow>
             let T_acc = nat (years_to_retire req * frequency req);
                 T_ret = nat (years_in_retirement req * frequency req);
                 T = T_acc + T_ret;
                 terminal = map last wealth;
                 prob_nonzero_end' =
                   real (length (filter (\<lambda>w. 0 < w) terminal)) / real (length terminal);
                 median_terminal' = median terminal;
                 ttz = map (time_to_zero T_acc T_ret) wealth;
                 median_longevity_months = trunc (median (map real_of_int ttz));
                 start_d = (case start_date req of Some sd \<Rightarrow> sd | None \<Rightarrow> today);
                 d = nat (max 0 (decimals req))
             in bind_err (labels_of start_d (T + 1)) (\<lambda>lbls.
                Inr (\<lparr>labels = lbls,
                      percentiles =
                        \<lparr>p10 = round_list (sanitize_list (percentile_axis0 wealth (T + 1) 10)) d,
                         p25 = round_list (sanitize_list (percentile_axis0 wealth (T + 1) 25)) d,
                         p50 = round_list (sanitize_list (percentile_axis0 wealth (T + 1) 50)) d,
                         p75 = round_list (sanitize_list (percentile_axis0 wealth (T + 1) 75)) d,
                         p90 = round_list (sanitize_list (percentile_axis0 wealth (T + 1) 90)) d\<rparr>,
                      summary =
                        \<lparr>median_terminal = round_float (sanitize_float median_terminal') d,
                         prob_nonzero_end = round_float (sanitize_float prob_nonzero_end') d,
                         median_lasting_months = median_longevity_months,
                         retirement_start_index = int T_acc\<rparr>\<rparr>, g1))))"

section \<open>Concrete inputs\<close>

text \<open>Requests and dates at which the theorems below are instantiated.\<close>

definition day0 :: date where
  "day0 = \<lparr>d_year = 2024, d_month = 1, d_day = 31\<rparr>"

text \<open>
  A one-year loan of 1200 whose payment is fixed at the zero rate and never
  recalculated while interest accrues at 12% a year: a balance is left at the end.
\<close>

definition balloon_request :: MortgageRequest where
  "balloon_request =
     \<lparr>principal = 1200, term_years = 1, fixed_years = 0, fixed_rate = 0,
      variable_rate = 12 / 100, monthly_overpayment = 0, extra_payments = None,
      start_date = None, recalc_on_rate_change = False, decimals = 1\<rparr>"

text \<open>An extra payment keyed to the sixth year, beyond the one-year term.\<close>

definition late_payment :: ExtraPayment where
  "late_payment = \<lparr>year = 5, month = 0, amount = 1000\<rparr>"

text \<open>The same loan with no interest at all: it is paid off exactly at the last period.\<close>

definition exact_request :: MortgageRequest where
  "exact_request = balloon_request\<lparr>variable_rate := 0\<rparr>"

text \<open>
  A retirement request on a quarterly grid: four periods a year, two years of saving
  500 a period, one year of retirement, 2% inflation.
\<close>

definition quarterly_request :: FireRequest where
  "quarterly_request =
     \<lparr>initial_balance = 0, monthly_disposable = 500, monthly_drawdown = 2500,
      years_to_retire = 2, years_in_retirement = 1,
      expected_return_accum = 7 / 100, expected_return_ret = 5 / 100,
      volatility = 18 / 100, inflation = 2 / 100, expense_ratio = 1 / 1000,
      n_sims = 2000, frequency = 4, start_date = None, decimals = 1, seed = None\<rparr>"

text \<open>
  A generator whose first two draws after seeding are \<open>ln (1/2)\<close> and \<open>ln (3/2)\<close>,
  and a drawdown request with one path over two yearly periods, zero drift
  (\<open>mu_net = sigma\<^sup>2 / 2\<close>) and unit volatility: its price path is \<open>1, 1/2, 3/4\<close>.
\<close>

definition two_draws :: "nat rng" where
  "two_draws =
     \<lparr>rng_seed = (\<lambda>s. 0),
      rng_gauss = (\<lambda>g. (if g = 0 then ln (1 / 2) else ln (3 / 2), Suc g))\<rparr>"

definition dip_request :: DrawdownRequest where
  "dip_request =
     \<lparr>years = 2, expected_return = 1 / 2, volatility = 1, expense_ratio = 0, n_sims = 1,
      frequency = 1, start_date = None, decimals = 1, seed = Some 0\<rparr>"

text \<open>
  The compound-growth scenario of twelve monthly contributions of 1000 without growth
  or volatility, asked for with a single path.
\<close>

definition flat_request :: SimRequest where
  "flat_request =
     \<lparr>initial = 0, annual_contribution = 12000, contribution_growth = 0, years = 1,
      n_sims = 1, expected_return = 0, volatility = 0, expense_ratio = 0,
      inflation = 2 / 100, target = None, frequency = 12, seed = None\<rparr>"

section \<open>Amortization calculator: properties\<close>

subsection \<open>The loop\<close>

lemma amortize_step_balances:
  "amortize_step T F i1 i2 ov em rc m st = Inr st' \<Longrightarrow> balances st' = balances st @ [bal st']"
  by (auto simp: amortize_step_def Let_def split: sum.splits if_splits)

lemma amortize_loop_length_le:
  "amortize_loop T F i1 i2 ov em rc m st = Inr st' \<Longrightarrow>
   length (balances st') \<le> length (balances st) + nat (T + 1 - m)"
proof (induction T F i1 i2 ov em rc m st rule: amortize_loop.induct)
  case (1 T F i1 i2 ov em rc m st)
  show ?case
  proof (cases "T < m")
    case True
    with "1.prems" show ?thesis by (simp add: amortize_loop.simps)
  next
    case False
    then obtain s1 where s1: "amortize_step T F i1 i2 ov em rc m st = Inr s1"
      using "1.prems" by (subst (asm) amortize_loop.simps) (simp split: sum.splits)
    have len1: "length (balances s1) = length (balances st) + 1"
      using amortize_step_balances[OF s1] by simp
    show ?thesis
    proof (cases "bal s1 \<le> 0")
      case True
      with "1.prems" False s1 have "st' = s1"
        by (subst (asm) amortize_loop.simps) simp
      with len1 False show ?thesis by simp
    next
      case nb: False
      with "1.prems" False s1 have "amortize_loop T F i1 i2 ov em rc (m + 1) s1 = Inr st'"
        by (subst (asm) amortize_loop.simps) simp
      from "1.IH"[OF False s1 nb this] len1 False show ?thesis by simp
    qed
  qed
qed

lemma amortize_loop_length_pos:
  "amortize_loop T F i1 i2 ov em rc m st = Inr st' \<Longrightarrow> \<forall>v\<in>set (balances st'). 0 < v \<Longrightarrow>
   length (balances st') = length (balances st) + nat (T + 1 - m)"
proof (induction T F i1 i2 ov em rc m st rule: amortize_loop.induct)
  case (1 T F i1 i2 ov em rc m st)
  show ?case
  proof (cases "T < m")
    case True
    with "1.prems" show ?thesis by (simp add: amortize_loop.simps)
  next
    case False
    then obtain s1 where s1: "amortize_step T F i1 i2 ov em rc m st = Inr s1"
      using "1.prems" by (subst (asm) amortize_loop.simps) (simp split: sum.splits)
    have b1: "balances s1 = balances st @ [bal s1]"
      by (rule amortize_step_balances[OF s1])
    show ?thesis
    proof (cases "bal s1 \<le> 0")
      case True
      with "1.prems"(1) False s1 have "st' = s1"
        by (subst (asm) amortize_loop.simps) simp
      with b1 True "1.prems"(2) show ?thesis by auto
    next
      case nb: False
      with "1.prems" False s1 have "amortize_loop T F i1 i2 ov em rc (m + 1) s1 = Inr st'"
        by (subst (asm) amortize_loop.simps) simp
      from "1.IH"[OF False s1 nb this "1.prems"(2)] b1 False show ?thesis by simp
    qed
  qed
qed

lemma amortize_loop_nonempty:
  "amortize_loop T F i1 i2 ov em rc m st = Inr st' \<Longrightarrow> balances st \<noteq> [] \<Longrightarrow> balances st' \<noteq> []"
proof (induction T F i1 i2 ov em rc m st rule: amortize_loop.induct)
  case (1 T F i1 i2 ov em rc m st)
  show ?case
  proof (cases "T < m")
    case True
    with "1.prems" show ?thesis by (simp add: amortize_loop.simps)
  next
    case False
    then obtain s1 where s1: "amortize_step T F i1 i2 ov em rc m st = Inr s1"
      using "1.prems" by (subst (asm) amortize_loop.simps) (simp split: sum.splits)
    have b1: "balances s1 \<noteq> []"
      using amortize_step_balances[OF s1] by simp
    show ?thesis
    proof (cases "bal s1 \<le> 0")
      case True
      with "1.prems"(1) False s1 have "st' = s1"
        by (subst (asm) amortize_loop.simps) simp
      with b1 show ?thesis by simp
    next
      case nb: False
      with "1.prems" False s1 have "amortize_loop T F i1 i2 ov em rc (m + 1) s1 = Inr st'"
        by (subst (asm) amortize_loop.simps) simp
      from "1.IH"[OF False s1 nb this b1] show ?thesis .
    qed
  qed
qed

lemma amortize_length_le:
  "amortize P T F r1 r2 ov em rc = Inr a \<Longrightarrow> length (balances a) \<le> 1 + nat T"
  by (auto simp: amortize_def Let_def split: sum.splits dest!: amortize_loop_length_le)

lemma amortize_length_pos:
  "amortize P T F r1 r2 ov em rc = Inr a \<Longrightarrow> \<forall>v\<in>set (balances a). 0 < v \<Longrightarrow>
   length (balances a) = 1 + nat T"
  by (auto simp: amortize_def Let_def split: sum.splits dest!: amortize_loop_length_pos)

lemma amortize_nonempty:
  "amortize P T F r1 r2 ov em rc = Inr a \<Longrightarrow> balances a \<noteq> []"
  by (auto simp: amortize_def Let_def split: sum.splits dest!: amortize_loop_nonempty)

subsection \<open>Padding, payoff month, labels\<close>

lemma first_nonpos_None: "\<forall>v\<in>set bals. 0 < v \<Longrightarrow> first_nonpos i bals = None"
  by (induction bals arbitrary: i) auto

lemma payoff_month_pos: "\<forall>v\<in>set bals. 0 < v \<Longrightarrow> payoff_month bals = int (length bals) - 1"
  by (simp add: payoff_month_def first_nonpos_None)

lemma pad_same: "pad arr (length arr) = Inr arr"
  by (simp add: pad_def)

lemma pad_last: "pad arr L = Inr r \<Longrightarrow> length arr \<le> L \<Longrightarrow> arr \<noteq> [] \<Longrightarrow> last r = last arr"
  by (auto simp: pad_def split: if_splits)

lemma sequence_list_length: "sequence_list xs = Inr ys \<Longrightarrow> length ys = length xs"
  by (induction xs arbitrary: ys) (auto split: sum.splits)

lemma sequence_list_nth:
  "sequence_list xs = Inr ys \<Longrightarrow> i < length xs \<Longrightarrow> xs ! i = Inr (ys ! i)"
proof (induction xs arbitrary: ys i)
  case Nil
  then show ?case by simp
next
  case (Cons x xs)
  then show ?case by (cases i) (auto split: sum.splits)
qed

lemma labels_of_last:
  assumes "labels_of sd (Suc n) = Inr ls"
  shows "add_months sd (int n) = Inr (last ls)"
proof -
  let ?xs = "map (\<lambda>m. add_months sd (int m)) [0..<Suc n]"
  from assms have s: "sequence_list ?xs = Inr ls" by (simp add: labels_of_def)
  have len: "length ls = Suc n" using sequence_list_length[OF s] by simp
  have "?xs ! n = Inr (ls ! n)" using sequence_list_nth[OF s, of n] by simp
  moreover have "?xs ! n = add_months sd (int n)"
    by (simp add: nth_append del: upt_Suc)
  moreover have "last ls = ls ! n" using len by (cases ls rule: rev_cases) (auto simp: nth_append)
  ultimately show ?thesis by simp
qed

subsection \<open>Extra payments\<close>

lemma build_extra_map_skip:
  "\<not> (1 \<le> ep_index ep \<and> ep_index ep \<le> term_m) \<Longrightarrow>
   build_extra_map term_m (xs @ ep # ys) em = build_extra_map term_m (xs @ ys) em"
  by (induction xs arbitrary: em) (auto simp: Let_def)

lemma extra_map_of_skip:
  assumes "\<not> (1 \<le> ep_index ep \<and> ep_index ep \<le> term_m)"
  shows "extra_map_of term_m (Some (xs @ ep # ys)) = extra_map_of term_m (Some (xs @ ys))"
    and "extra_map_of term_m (Some [ep]) = extra_map_of term_m None"
  using build_extra_map_skip[OF assms, of xs ys Map.empty]
        build_extra_map_skip[OF assms, of "[]" "[]" Map.empty]
  by (simp_all add: extra_map_of_def)

subsection \<open>The scheduled payment\<close>

text \<open>
  Claim C7.  The scheduled payment of \<^verbatim>\<open>_pmt\<close> for a balance \<open>B\<close>, a per-period rate
  \<open>i\<close> and \<open>n\<close> remaining periods is the balance itself when \<open>n \<le> 0\<close>, equal
  instalments \<open>B / n\<close> when \<open>i\<close> is numerically zero (\<open>|i| < 10\<^sup>-\<^sup>1\<^sup>2\<close>), and
  the annuity payment \<open>B \<cdot> i / (1 - (1 + i)\<^sup>-\<^sup>n)\<close> otherwise, wherever that quotient is
  defined.  Consequently the engine run on a principal of 100000 over one period at
  rate zero makes the single payment 100000 and ends on the balance 0, whatever the
  fixed-phase length and the recalculation flag.
\<close>

theorem C7_pmt_formula:
  "(n \<le> 0 \<longrightarrow> pmt B i n = Inr B) \<and>
   (0 < n \<and> \<bar>i\<bar> < 1 / 10 ^ 12 \<longrightarrow> pmt B i n = Inr (B / of_int n)) \<and>
   (0 < n \<and> 1 / 10 ^ 12 \<le> \<bar>i\<bar> \<and> 1 + i \<noteq> 0 \<and> (1 + i) powi (- n) \<noteq> 1 \<longrightarrow>
      pmt B i n = Inr (B * i / (1 - (1 + i) powi (- n)))) \<and>
   (\<exists>st. amortize 100000 1 fixed_m 0 0 0 Map.empty recalc = Inr st \<and>
        sched st = [100000] \<and> totalp st = [100000] \<and> balances st = [100000, 0])"
  by (auto simp: pmt_def amortize_def Let_def amortize_loop.simps amortize_step_def)

theorem C7_pmt_formula_witness:
  "pmt 500 (1 / 100) 0 = Inr 500 \<and> pmt 1200 0 12 = Inr 100 \<and> pmt 100 1 1 = Inr 200"
  using C7_pmt_formula[of 0 500 "1 / 100"] C7_pmt_formula[of 12 1200 0]
        C7_pmt_formula[of 1 100 1]
  by simp

text \<open>
  Where the annuity quotient is not defined (\<open>1 + i = 0\<close>, or \<open>(1 + i)\<^sup>-\<^sup>n = 1\<close> as
  for \<open>i = -2\<close> and even \<open>n\<close>) the source divides by zero and raises.
\<close>

lemma pmt_raises:
  "0 < n \<Longrightarrow> 1 / 10 ^ 12 \<le> \<bar>i\<bar> \<Longrightarrow> 1 + i = 0 \<or> (1 + i) powi (- n) = 1 \<Longrightarrow>
   pmt B i n = Inl ZeroDivisionError"
  by (auto simp: pmt_def)

subsection \<open>Extra payments outside the term\<close>

text \<open>
  Claim C9.  An extra payment whose period index \<open>year \<cdot> 12 + month + 1\<close> lies outside
  \<open>1 .. term_months\<close> is ignored: the calculator returns the same result, response or
  exception, with the payment anywhere in the list as without it, and a list holding
  only that payment gives the same result as no list at all.
\<close>

theorem C9_out_of_range_extra_ignored:
  assumes "\<not> (1 \<le> ep_index ep \<and> ep_index ep \<le> term_years req * 12)"
  shows "mortgage today (req\<lparr>extra_payments := Some (xs @ ep # ys)\<rparr>)
           = mortgage today (req\<lparr>extra_payments := Some (xs @ ys)\<rparr>) \<and>
         mortgage today (req\<lparr>extra_payments := Some [ep]\<rparr>)
           = mortgage today (req\<lparr>extra_payments := None\<rparr>)"
  using extra_map_of_skip[OF assms]
  by (simp add: mortgage_def mortgage_run_def)

theorem C9_out_of_range_extra_ignored_witness:
  "ep_index late_payment = 61 \<and> term_years balloon_request * 12 = 12 \<and>
   mortgage day0 (balloon_request\<lparr>extra_payments := Some [late_payment]\<rparr>)
     = mortgage day0 balloon_request"
  using C9_out_of_range_extra_ignored[of late_payment balloon_request day0 "[]" "[]", THEN conjunct2]
  by (simp add: ep_index_def late_payment_def balloon_request_def)

subsection \<open>Payoff month of a balloon loan\<close>

text \<open>
  Claim C10.  When no balance of the schedule is \<open>\<le> 0\<close> (a balloon loan), the
  reported \<open>payoff_months\<close> is the last index of the balance series, which is the
  term boundary \<open>term_years \<cdot> 12\<close>, and a \<open>payoff_date\<close> is still produced for that
  index (it is the last label).  In every response \<open>is_balloon\<close> is true exactly when
  the final unrounded balance is strictly positive.
\<close>

theorem C10_balloon_summary:
  assumes run: "mortgage_run today req = Inr (a, b, resp)"
  shows "is_balloon (MortgageResponse.summary resp) = (0 < last (balances a)) \<and>
         ((\<forall>v\<in>set (balances a). 0 < v) \<longrightarrow>
            payoff_months (MortgageResponse.summary resp) = int (length (balance resp)) - 1 \<and>
            (0 \<le> term_years req \<longrightarrow>
               payoff_months (MortgageResponse.summary resp) = term_years req * 12) \<and>
            add_months (case MortgageRequest.start_date req of Some sd \<Rightarrow> sd | None \<Rightarrow> today)
               (payoff_months (MortgageResponse.summary resp))
              = Inr (payoff_date (MortgageResponse.summary resp)) \<and>
            payoff_date (MortgageResponse.summary resp) = last (MortgageResponse.labels resp) \<and>
            is_balloon (MortgageResponse.summary resp))"
proof -
  let ?T = "term_years req * 12"
  let ?sd = "case MortgageRequest.start_date req of Some sd \<Rightarrow> sd | None \<Rightarrow> today"
  let ?d = "nat (max 0 (MortgageRequest.decimals req))"
  let ?L = "max (length (balances a)) (length (balances b))"
  from run obtain lbls bals' where
    a: "amortize (principal req) ?T (fixed_years req * 12) (fixed_rate req) (variable_rate req)
          (monthly_overpayment req) (extra_map_of ?T (extra_payments req))
          (recalc_on_rate_change req) = Inr a" and
    b: "amortize (principal req) ?T (fixed_years req * 12) (fixed_rate req) (variable_rate req)
          0 Map.empty (recalc_on_rate_change req) = Inr b" and
    lb: "labels_of ?sd ?L = Inr lbls" and
    pb: "pad (balances a) ?L = Inr bals'" and
    ne: "bals' \<noteq> []" and
    pd: "add_months ?sd (payoff_month bals') = Inr (payoff_date (MortgageResponse.summary resp))" and
    pm: "payoff_months (MortgageResponse.summary resp) = payoff_month bals'" and
    ib: "is_balloon (MortgageResponse.summary resp) = (0 < last bals')" and
    rb: "balance resp = round_list bals' ?d" and
    rl: "MortgageResponse.labels resp = lbls"
    by (auto simp: mortgage_run_def bind_err_def Let_def split: sum.splits if_splits)
  have a_ne: "balances a \<noteq> []" by (rule amortize_nonempty[OF a])
  have last_eq: "last bals' = last (balances a)"
    by (rule pad_last[OF pb _ a_ne]) simp
  have part1: "is_balloon (MortgageResponse.summary resp) = (0 < last (balances a))"
    using ib last_eq by simp
  have part2: "payoff_months (MortgageResponse.summary resp) = int (length (balance resp)) - 1 \<and>
            (0 \<le> term_years req \<longrightarrow>
               payoff_months (MortgageResponse.summary resp) = term_years req * 12) \<and>
            add_months ?sd (payoff_months (MortgageResponse.summary resp))
              = Inr (payoff_date (MortgageResponse.summary resp)) \<and>
            payoff_date (MortgageResponse.summary resp) = last (MortgageResponse.labels resp) \<and>
            is_balloon (MortgageResponse.summary resp)"
    if pos: "\<forall>v\<in>set (balances a). 0 < v"
  proof -
    have la: "length (balances a) = 1 + nat ?T" by (rule amortize_length_pos[OF a pos])
    have lb': "length (balances b) \<le> 1 + nat ?T" by (rule amortize_length_le[OF b])
    have L: "?L = length (balances a)" using la lb' by simp
    have bals: "bals' = balances a" using pb L by (simp add: pad_same)
    have pmv: "payoff_month bals' = int (length (balances a)) - 1"
      using payoff_month_pos[OF pos] bals by simp
    have c1: "payoff_months (MortgageResponse.summary resp) = int (length (balance resp)) - 1"
      using pm pmv rb bals by (simp add: round_list_def)
    have c2: "0 \<le> term_years req \<longrightarrow> payoff_months (MortgageResponse.summary resp) = ?T"
      using pm pmv la by simp
    have c3: "add_months ?sd (payoff_months (MortgageResponse.summary resp))
              = Inr (payoff_date (MortgageResponse.summary resp))"
      using pd pm by simp
    have "labels_of ?sd (Suc (nat ?T)) = Inr lbls" using lb L la by simp
    from labels_of_last[OF this] have "add_months ?sd (int (nat ?T)) = Inr (last lbls)" .
    moreover have "payoff_month bals' = int (nat ?T)" using pmv la by simp
    ultimately have c4: "payoff_date (MortgageResponse.summary resp) = last (MortgageResponse.labels resp)"
      using pd rl by simp
    have "0 < last (balances a)" using pos a_ne by simp
    with part1 have c5: "is_balloon (MortgageResponse.summary resp)" by simp
    from c1 c2 c3 c4 c5 show ?thesis by blast
  qed
  from part1 part2 show ?thesis by blast
qed

theorem C10_balloon_summary_witness:
  "\<exists>a b resp. mortgage_run day0 balloon_request = Inr (a, b, resp) \<and>
     (\<forall>v\<in>set (balances a). 0 < v) \<and>
     payoff_months (MortgageResponse.summary resp) = 12 \<and>
     is_balloon (MortgageResponse.summary resp) \<and>
     payoff_date (MortgageResponse.summary resp) = last (MortgageResponse.labels resp)"
proof -
  have "\<exists>a b resp. mortgage_run day0 balloon_request = Inr (a, b, resp) \<and>
          (\<forall>v\<in>set (balances a). 0 < v)"
    by (simp add: mortgage_run_def balloon_request_def day0_def amortize_def pmt_def Let_def
        amortize_loop.simps amortize_step_def bind_err_def extra_map_of_def labels_of_def
        add_months_def days_in_month_def isleap_def pad_def payoff_month_def upt_rec)
  then obtain a b resp where
    run: "mortgage_run day0 balloon_request = Inr (a, b, resp)" and
    pos: "\<forall>v\<in>set (balances a). 0 < v" by blast
  note c = C10_balloon_summary[OF run, THEN conjunct2, THEN mp, OF pos]
  from c have "payoff_months (MortgageResponse.summary resp) = 12"
    by (simp add: balloon_request_def)
  with c run pos show ?thesis by blast
qed

text \<open>
  The summary does not tell the two cases apart by the payoff month: the loan that is
  paid off exactly at the last period reports the same \<open>payoff_months\<close>; only
  \<open>is_balloon\<close> differs.
\<close>

lemma paid_off_at_term_same_payoff_months:
  "\<exists>a b resp. mortgage_run day0 exact_request = Inr (a, b, resp) \<and>
     last (balances a) = 0 \<and>
     payoff_months (MortgageResponse.summary resp) = 12 \<and>
     \<not> is_balloon (MortgageResponse.summary resp)"
  by (simp add: mortgage_run_def exact_request_def balloon_request_def day0_def amortize_def
      pmt_def Let_def amortize_loop.simps amortize_step_def bind_err_def extra_map_of_def
      labels_of_def add_months_def days_in_month_def isleap_def pad_def payoff_month_def upt_rec)

section \<open>Cash-flow schedules\<close>

text \<open>
  The compound schedule holds \<open>annual / frequency\<close> through each year and carries the
  factor \<open>(1 + growth)\<close> once per \<open>frequency\<close> periods; with growth zero it is
  constant.  The two retirement schedules carry the factor \<open>(1 + inflation)\<close> once
  per 12 periods, whatever the frequency.
\<close>

lemma grow_schedule_length: "length (grow_schedule infl m k amt) = k"
  by (induction k arbitrary: m amt) simp_all

lemma grow_schedule_nth:
  "j < k \<Longrightarrow> grow_schedule infl m k amt ! j = amt * (1 + infl) ^ ((m + j) div 12 - m div 12)"
proof (induction k arbitrary: m amt j)
  case 0
  then show ?case by simp
next
  case (Suc k)
  show ?case
  proof (cases j)
    case 0
    then show ?thesis by simp
  next
    case j: (Suc j')
    with Suc.prems have lt: "j' < k" by simp
    have mono: "Suc m div 12 \<le> (Suc m + j') div 12" by (rule div_le_mono) simp
    have idx: "m + j = Suc m + j'" using j by simp
    show ?thesis
    proof (cases "Suc m mod 12 = 0")
      case True
      then have d: "Suc m div 12 = Suc (m div 12)" by (simp add: div_Suc)
      have e: "(Suc m + j') div 12 - m div 12 = Suc ((Suc m + j') div 12 - Suc m div 12)"
        using mono d by linarith
      have "grow_schedule infl m (Suc k) amt ! j
            = grow_schedule infl (Suc m) k (amt * (1 + infl)) ! j'"
        using True j by simp
      also have "\<dots> = amt * (1 + infl) * (1 + infl) ^ ((Suc m + j') div 12 - Suc m div 12)"
        by (rule Suc.IH[OF lt])
      also have "\<dots> = amt * (1 + infl) ^ ((m + j) div 12 - m div 12)"
        by (simp only: idx e power_Suc mult.assoc)
      finally show ?thesis .
    next
      case False
      then have d: "Suc m div 12 = m div 12" by (simp add: div_Suc)
      have "grow_schedule infl m (Suc k) amt ! j = grow_schedule infl (Suc m) k amt ! j'"
        using False j by simp
      also have "\<dots> = amt * (1 + infl) ^ ((Suc m + j') div 12 - Suc m div 12)"
        by (rule Suc.IH[OF lt])
      also have "\<dots> = amt * (1 + infl) ^ ((m + j) div 12 - m div 12)"
        by (simp only: idx d)
      finally show ?thesis .
    qed
  qed
qed


lemma concat_replicate_nth:
  "0 < n \<Longrightarrow> m < length xs * n \<Longrightarrow>
   concat (map (\<lambda>c. replicate n (f c)) xs) ! m = f (xs ! (m div n))"
proof (induction xs arbitrary: m)
  case Nil
  then show ?case by simp
next
  case (Cons x xs)
  show ?case
  proof (cases "m < n")
    case True
    then show ?thesis by (simp add: nth_append)
  next
    case False
    then have ge: "n \<le> m" by simp
    with Cons.prems have lt: "m - n < length xs * n" by simp
    have d: "m div n = Suc ((m - n) div n)" using ge Cons.prems(1) by (simp add: le_div_geq)
    from Cons.IH[OF Cons.prems(1) lt] False d show ?thesis by (simp add: nth_append)
  qed
qed

lemma contrib_schedule_length: "length (contrib_schedule A g yrs freq) = yrs * freq"
  by (simp add: contrib_schedule_def contrib_per_year_def length_concat comp_def sum_list_triv)

lemma contrib_schedule_nth:
  assumes "0 < freq" "m < yrs * freq"
  shows "contrib_schedule A g yrs freq ! m = A * (1 + g) ^ (m div freq) / real freq"
proof -
  have lt: "m div freq < yrs" using assms by (simp add: less_mult_imp_div_less)
  have "contrib_schedule A g yrs freq ! m
        = (contrib_per_year A g yrs ! (m div freq)) / real freq"
    unfolding contrib_schedule_def
    using concat_replicate_nth[of freq m "contrib_per_year A g yrs" "\<lambda>c. c / real freq"] assms
    by (simp add: contrib_per_year_def)
  with lt show ?thesis by (simp add: contrib_per_year_def)
qed

lemma contrib_schedule_zero_growth:
  assumes "0 < freq" "m < yrs * freq"
  shows "contrib_schedule A 0 yrs freq ! m = A / real freq"
  using contrib_schedule_nth[OF assms, of A 0] by simp

lemma fire_contrib_nth:
  assumes "m < nat (years_to_retire req * FireRequest.frequency req)"
  shows "fire_contrib req ! m = monthly_disposable req * (1 + FireRequest.inflation req) ^ (m div 12)"
  using assms grow_schedule_nth[of m "nat (years_to_retire req * FireRequest.frequency req)"
      "FireRequest.inflation req" 0 "monthly_disposable req"]
  by (simp add: fire_contrib_def Let_def nth_append grow_schedule_length)

lemma fire_draw_nth:
  assumes "m < nat (years_in_retirement req * FireRequest.frequency req)"
  shows "fire_draw req ! (nat (years_to_retire req * FireRequest.frequency req) + m)
         = monthly_drawdown req * (1 + FireRequest.inflation req) ^ (m div 12)"
  using assms grow_schedule_nth[of m "nat (years_in_retirement req * FireRequest.frequency req)"
      "FireRequest.inflation req" 0 "monthly_drawdown req"]
  by (simp add: fire_draw_def Let_def nth_append)

text \<open>
  Claim C4.  The schedule holds the amount through each year and multiplies it by
  \<open>(1 + growth)\<close> once every \<open>frequency\<close> periods, for the compound schedule and for
  the retirement schedules alike.  The compound schedule does (\<open>contrib_schedule_nth\<close>).
  The retirement schedules test \<^verbatim>\<open>(m + 1) % 12\<close>, not the frequency: on the
  quarterly grid of \<open>quarterly_request\<close> the second year starts at period 4, and the
  contribution there is still 500 instead of \<open>500 \<cdot> 1.02\<close>.
\<close>

theorem C4_fire_steps_every_12_periods:
  "FireRequest.frequency quarterly_request = 4 \<and>
   fire_contrib quarterly_request ! 0 = 500 \<and>
   fire_contrib quarterly_request ! 4 = 500 \<and>
   fire_contrib quarterly_request ! 4 \<noteq>
     fire_contrib quarterly_request ! 0 * (1 + FireRequest.inflation quarterly_request)"
  using fire_contrib_nth[of 0 quarterly_request] fire_contrib_nth[of 4 quarterly_request]
  by (simp add: quarterly_request_def)

section \<open>Drawdown calculator: recovery time\<close>

subsection \<open>The trough and the scan\<close>

lemma length_accumulate_from: "length (accumulate_from a xs) = length xs"
  by (induction xs arbitrary: a) simp_all

lemma length_maximum_accumulate: "length (maximum_accumulate xs) = length xs"
  by (simp add: maximum_accumulate_def length_accumulate_from split: list.splits)

lemma length_dd_row: "length (dd_row p) = length p"
  by (simp add: dd_row_def length_maximum_accumulate)

lemma argmin_from_spec:
  assumes "ys = pre @ xs" "i = length pre" "best < i" "v = ys ! best"
      and "\<forall>j<i. v \<le> ys ! j" "\<forall>j<best. v < ys ! j"
  shows "argmin_from best v i xs < length ys \<and>
         (\<forall>j<length ys. ys ! argmin_from best v i xs \<le> ys ! j) \<and>
         (\<forall>j<argmin_from best v i xs. ys ! argmin_from best v i xs < ys ! j)"
  using assms
proof (induction xs arbitrary: best v i pre)
  case Nil
  then show ?case by simp
next
  case (Cons x xs)
  have ys: "ys = (pre @ [x]) @ xs" and i': "Suc i = length (pre @ [x])" and xi: "ys ! i = x"
    using Cons.prems by simp_all
  show ?case
  proof (cases "x < v")
    case True
    have a: "\<forall>j<Suc i. x \<le> ys ! j"
      using Cons.prems(5) True xi by (auto simp: less_Suc_eq)
    have b: "\<forall>j<i. x < ys ! j"
      using Cons.prems(5) True by fastforce
    from Cons.IH[OF ys i' _ _ a b, of ] xi True show ?thesis by simp
  next
    case False
    have a: "\<forall>j<Suc i. v \<le> ys ! j"
      using Cons.prems(5) False xi by (auto simp: less_Suc_eq)
    from Cons.IH[OF ys i' _ Cons.prems(4) a Cons.prems(6)] Cons.prems(3) False
    show ?thesis by simp
  qed
qed

lemma argmin_spec:
  assumes "ys \<noteq> []"
  shows "argmin ys < length ys \<and> (\<forall>j<length ys. ys ! argmin ys \<le> ys ! j) \<and>
         (\<forall>j<argmin ys. ys ! argmin ys < ys ! j)"
proof -
  from assms obtain x rest where ys: "ys = x # rest" by (cases ys) auto
  have "argmin_from 0 x 1 rest < length ys \<and>
         (\<forall>j<length ys. ys ! argmin_from 0 x 1 rest \<le> ys ! j) \<and>
         (\<forall>j<argmin_from 0 x 1 rest. ys ! argmin_from 0 x 1 rest < ys ! j)"
    by (rule argmin_from_spec[where pre = "[x]"]) (simp_all add: ys)
  then show ?thesis by (simp add: argmin_def ys)
qed

lemma rec_idx_found:
  assumes "trough_idx p \<le> r" "r < length p" "prev_peak p \<le> p ! r"
      and "\<forall>j. trough_idx p \<le> j \<and> j < r \<longrightarrow> p ! j < prev_peak p"
  shows "rec_idx p = r"
proof -
  let ?t = "trough_idx p"
  let ?P = "\<lambda>j. prev_peak p \<le> p ! j"
  have "find ?P [?t..<length p] = Some r"
    unfolding find_Some_iff
  proof (intro exI[of _ "r - ?t"] conjI allI impI)
    show "r - ?t < length [?t..<length p]" using assms by simp
    show "?P ([?t..<length p] ! (r - ?t))" using assms by simp
    show "r = [?t..<length p] ! (r - ?t)" using assms by simp
    fix j assume "j < r - ?t"
    then show "\<not> ?P ([?t..<length p] ! j)" using assms by (simp add: not_le)
  qed
  then show ?thesis by (simp add: rec_idx_def)
qed

lemma rec_idx_not_found:
  assumes "\<forall>j. trough_idx p \<le> j \<and> j < length p \<longrightarrow> p ! j < prev_peak p"
  shows "rec_idx p = trough_idx p"
proof -
  have "find (\<lambda>j. prev_peak p \<le> p ! j) [trough_idx p..<length p] = None"
    unfolding find_None_iff using assms by (force simp: not_le)
  then show ?thesis by (simp add: rec_idx_def)
qed


subsection \<open>A path that dips and does not recover\<close>

text \<open>
  The request \<open>dip_request\<close> with the generator \<open>two_draws\<close> yields the single
  price path \<open>1, 1/2, 3/4\<close>, which is also the median path: the trough is at index
  1, the peak recorded there is 1, and neither later value reaches it.
\<close>

lemma two_draws_seed: "rng_seed two_draws s = 0"
  by (simp add: two_draws_def)

lemma dip_z: "draws two_draws 2 0 = ([ln (1 / 2), ln (3 / 2)], 2)"
  by (simp add: two_draws_def eval_nat_numeral)

lemma dip_prices: "drawdown_prices two_draws g dip_request = ([[1, 1 / 2, 3 / 4]], 2)"
  by (simp add: drawdown_prices_def dip_request_def Let_def price_row_def dip_z two_draws_seed)

lemma percentile_single: "percentile [x] q = x"
  by (simp add: percentile_def Let_def)

lemma dip_recovery:
  "trough_idx [1, 1 / 2, 3 / 4] = 1 \<and> prev_peak [1, 1 / 2, 3 / 4] = 1 \<and>
   rec_idx [1, 1 / 2, 3 / 4] = 1 \<and> recovery_months [1, 1 / 2, 3 / 4] = 0"
  by (simp add: trough_idx_def prev_peak_def recovery_months_def rec_idx_def dd_row_def
      maximum_accumulate_def argmin_def upt_rec)

lemma drawdown_recovery_field:
  assumes "drawdown R g today req = Inr (resp, g')"
  shows "median_recovery_months (DrawdownResponse.summary resp)
         = recovery_months (percentile_axis0 (fst (drawdown_prices R g req))
             (nat (DrawdownRequest.years req * DrawdownRequest.frequency req) + 1) 50)"
  using assms
  by (auto simp: drawdown_def Let_def bind_err_def split: option.splits prod.splits sum.splits)

lemma drawdown_returns:
  assumes "drawdown_guard req = None"
      and "labels_of (case DrawdownRequest.start_date req of Some sd \<Rightarrow> sd | None \<Rightarrow> today)
             (nat (DrawdownRequest.years req * DrawdownRequest.frequency req) + 1) = Inr ls"
  shows "\<exists>resp. drawdown R g today req = Inr (resp, snd (drawdown_prices R g req))"
  using assms
  by (simp add: drawdown_def Let_def bind_err_def split: prod.splits)

lemma dip_labels: "\<exists>ls. labels_of day0 3 = Inr ls"
  by (simp add: labels_of_def add_months_def day0_def days_in_month_def isleap_def upt_rec)

lemma dip_drawdown:
  "\<exists>resp. drawdown two_draws g day0 dip_request = Inr (resp, 2) \<and>
     median_recovery_months (DrawdownResponse.summary resp) = 0"
proof -
  from dip_labels obtain ls where ls: "labels_of day0 3 = Inr ls" by blast
  have g: "drawdown_guard dip_request = None"
    by (simp add: drawdown_guard_def dip_request_def)
  have "\<exists>resp. drawdown two_draws g day0 dip_request
          = Inr (resp, snd (drawdown_prices two_draws g dip_request))"
    by (rule drawdown_returns[OF g, of day0 ls]) (simp add: dip_request_def ls)
  then obtain resp where r: "drawdown two_draws g day0 dip_request = Inr (resp, 2)"
    by (auto simp: dip_prices)
  have "median_recovery_months (DrawdownResponse.summary resp)
        = recovery_months (percentile_axis0 [[1, 1 / 2, 3 / 4]] 3 50)"
    using drawdown_recovery_field[OF r, unfolded dip_prices] by (simp add: dip_request_def)
  also have "\<dots> = 0"
    by (simp add: percentile_axis0_def column_def percentile_single upt_rec dip_recovery)
  finally show ?thesis using r by blast
qed


subsection \<open>Recovery duration\<close>

text \<open>
  Claim C5, as amended.  On a non-empty median path \<open>p\<close> the trough is the first index
  at which the drawdown series takes its minimum, and \<open>prev_peak\<close> is the running
  peak recorded there.  If \<open>r\<close> is the first index from the trough on whose value is
  at least \<open>prev_peak\<close>, the reported duration is \<open>r - trough\<close>.  If no index from
  the trough to the end of the path has such a value, the reported duration is \<open>0\<close>:
  \<open>rec_idx\<close> stays at the trough.
\<close>

theorem C5_recovery_duration:
  assumes "p \<noteq> []"
  shows "trough_idx p < length p \<and>
         (\<forall>j<length p. dd_row p ! trough_idx p \<le> dd_row p ! j) \<and>
         (\<forall>j<trough_idx p. dd_row p ! trough_idx p < dd_row p ! j) \<and>
         prev_peak p = maximum_accumulate p ! trough_idx p \<and>
         (\<forall>r. trough_idx p \<le> r \<and> r < length p \<and> prev_peak p \<le> p ! r \<and>
              (\<forall>j. trough_idx p \<le> j \<and> j < r \<longrightarrow> p ! j < prev_peak p)
              \<longrightarrow> recovery_months p = int r - int (trough_idx p)) \<and>
         ((\<forall>j. trough_idx p \<le> j \<and> j < length p \<longrightarrow> p ! j < prev_peak p)
              \<longrightarrow> recovery_months p = 0)"
proof -
  have ne: "dd_row p \<noteq> []" using assms length_dd_row[of p] by auto
  from argmin_spec[OF ne] have
    a: "trough_idx p < length p" and
    b: "\<forall>j<length p. dd_row p ! trough_idx p \<le> dd_row p ! j" and
    c: "\<forall>j<trough_idx p. dd_row p ! trough_idx p < dd_row p ! j"
    by (simp_all add: trough_idx_def length_dd_row)
  have d: "prev_peak p = maximum_accumulate p ! trough_idx p" by (simp add: prev_peak_def)
  have e: "recovery_months p = int r - int (trough_idx p)"
    if "trough_idx p \<le> r \<and> r < length p \<and> prev_peak p \<le> p ! r \<and>
        (\<forall>j. trough_idx p \<le> j \<and> j < r \<longrightarrow> p ! j < prev_peak p)" for r
    using rec_idx_found[of p r] that by (simp add: recovery_months_def)
  have f: "recovery_months p = 0"
    if "\<forall>j. trough_idx p \<le> j \<and> j < length p \<longrightarrow> p ! j < prev_peak p"
    using rec_idx_not_found[OF that] by (simp add: recovery_months_def)
  from a b c d e f show ?thesis by blast
qed

theorem C5_recovery_duration_witness:
  "recovery_months [1, 1 / 2, 3 / 4] = 0 \<and> recovery_months [1, 1 / 2, 1, 2] = 1"
proof -
  let ?p = "[1, 1 / 2, 3 / 4] :: real list"
  let ?q = "[1, 1 / 2, 1, 2] :: real list"
  have tp: "trough_idx ?p = 1" "prev_peak ?p = 1" using dip_recovery by simp_all
  have tq: "trough_idx ?q = 1" "prev_peak ?q = 1"
    by (simp_all add: trough_idx_def prev_peak_def dd_row_def maximum_accumulate_def argmin_def)
  have np: "\<forall>j. trough_idx ?p \<le> j \<and> j < length ?p \<longrightarrow> ?p ! j < prev_peak ?p"
    unfolding tp by (auto simp: less_Suc_eq numeral_3_eq_3 nth_Cons')
  have nq: "trough_idx ?q \<le> 2 \<and> 2 < length ?q \<and> prev_peak ?q \<le> ?q ! 2 \<and>
            (\<forall>j. trough_idx ?q \<le> j \<and> j < 2 \<longrightarrow> ?q ! j < prev_peak ?q)"
    unfolding tq by (auto simp: less_Suc_eq numeral_2_eq_2 nth_Cons')
  have "recovery_months ?p = 0"
    using C5_recovery_duration[of ?p] np by blast
  moreover have "recovery_months ?q = int 2 - int (trough_idx ?q)"
    using C5_recovery_duration[of ?q] nq by blast
  ultimately show ?thesis using tq by simp
qed


text \<open>
  The claim as first stated has the duration of a path that never recovers equal to
  the distance from the trough to the last index.  On the path \<open>1, 1/2, 3/4\<close> no
  value from the trough on reaches the peak, the distance to the last index is 1, and
  the reported duration is 0.
\<close>

theorem C5_recovery_counterexample:
  "trough_idx [1, 1 / 2, 3 / 4] = 1 \<and>
   [1, 1 / 2, 3 / 4] ! 1 < prev_peak [1, 1 / 2, 3 / 4] \<and>
   [1, 1 / 2, 3 / 4] ! 2 < prev_peak [1, 1 / 2, 3 / 4] \<and>
   recovery_months [1, 1 / 2, 3 / 4] = 0 \<and>
   int (length [1, 1 / 2, 3 / 4 :: real] - 1) - int (trough_idx [1, 1 / 2, 3 / 4]) = 1"
  using dip_recovery by simp

section \<open>Simulators: shared facts\<close>

lemma draws_length: "length (fst (draws R k g)) = k"
proof (induction k arbitrary: g)
  case 0
  then show ?case by simp
next
  case (Suc k)
  obtain z g1 where a: "rng_gauss R g = (z, g1)" by (cases "rng_gauss R g")
  obtain zs g2 where b: "draws R k g1 = (zs, g2)" by (cases "draws R k g1")
  from Suc.IH[of g1] a b show ?case by simp
qed

lemma randn_shape:
  "length (fst (randn R n T g)) = n \<and> (\<forall>row\<in>set (fst (randn R n T g)). length row = T)"
proof (induction n arbitrary: g)
  case 0
  then show ?case by simp
next
  case (Suc n)
  obtain row g1 where d: "draws R T g = (row, g1)" by (cases "draws R T g")
  obtain rows g2 where r: "randn R n T g1 = (rows, g2)" by (cases "randn R n T g1")
  have "length row = T" using draws_length[of R T g] d by simp
  moreover have "length rows = n \<and> (\<forall>row\<in>set rows. length row = T)"
    using Suc.IH[of g1] r by simp
  ultimately show ?case using d r by simp
qed

lemma wealth_row_length: "length (wealth_row w fcs) = length fcs + 1"
  by (induction w fcs rule: wealth_row.induct) simp_all

lemma wealth_row_nonempty: "wealth_row w fcs \<noteq> []"
  by (cases fcs) auto

lemma wealth_row_last_unit_growth:
  "\<forall>fc\<in>set fcs. fst fc = 1 \<Longrightarrow> last (wealth_row w fcs) = w + sum_list (map snd fcs)"
proof (induction w fcs rule: wealth_row.induct)
  case (1 w)
  then show ?case by simp
next
  case (2 w f c rest)
  then show ?case by (simp add: wealth_row_nonempty)
qed

lemma sum_list_snd_zip:
  "length fs = length cs \<Longrightarrow> sum_list (map snd (zip fs cs)) = sum_list cs"
  by (simp add: map_snd_zip)

lemma percentile_index:
  assumes "xs \<noteq> []" "0 \<le> q" "q \<le> 100"
  shows "nat \<lfloor>q / 100 * real (length xs - 1)\<rfloor> < length xs"
proof -
  let ?n = "length xs"
  have "q / 100 \<le> 1" using assms by simp
  then have "q / 100 * real (?n - 1) \<le> 1 * real (?n - 1)"
    by (rule mult_right_mono) simp
  then have "\<lfloor>q / 100 * real (?n - 1)\<rfloor> \<le> int (?n - 1)"
    by (simp add: floor_le_iff) 
  then have "nat \<lfloor>q / 100 * real (?n - 1)\<rfloor> \<le> ?n - 1" by simp
  moreover have "0 < ?n" using assms by simp
  ultimately show ?thesis by linarith
qed

lemma percentile_const:
  assumes "xs \<noteq> []" "\<forall>x\<in>set xs. x = v" "0 \<le> q" "q \<le> 100"
  shows "percentile xs q = v"
proof -
  let ?s = "sort xs"
  let ?lo = "nat \<lfloor>q / 100 * real (length xs - 1)\<rfloor>"
  have all: "\<forall>i<length xs. ?s ! i = v"
  proof (intro allI impI)
    fix i assume "i < length xs"
    then have "?s ! i \<in> set ?s" using nth_mem[of i ?s] by simp
    then show "?s ! i = v" using assms(2) by simp
  qed
  have lo: "?lo < length xs" by (rule percentile_index[OF assms(1,3,4)])
  have hi: "min (?lo + 1) (length xs - 1) < length xs"
  proof -
    have "min (?lo + 1) (length xs - 1) \<le> length xs - 1" by (rule min.cobounded2)
    moreover have "0 < length xs" using assms(1) by simp
    ultimately show ?thesis by linarith
  qed
  show ?thesis
    using all lo hi by (simp add: percentile_def Let_def)
qed

lemma percentile_axis0_length: "length (percentile_axis0 m ncols q) = ncols"
  by (simp add: percentile_axis0_def)

lemma percentile_axis0_nth:
  "j < ncols \<Longrightarrow> percentile_axis0 m ncols q ! j = percentile (column m j) q"
  by (simp add: percentile_axis0_def)

lemma percentile_axis0_last:
  "last (percentile_axis0 m (Suc T) q) = percentile (column m T) q"
  by (simp add: percentile_axis0_def)


section \<open>Compound-growth calculator: the flat scenario\<close>

lemma contrib_schedule_flat: "contrib_schedule 12000 0 (Suc 0) 12 = replicate 12 1000"
  by (simp add: contrib_schedule_def contrib_per_year_def)

lemma wealth_row_flat:
  assumes "\<forall>f\<in>set fs. f = 1" "length fs = length cs"
  shows "last (wealth_row w (zip fs cs)) = w + sum_list cs"
proof -
  have "\<forall>fc\<in>set (zip fs cs). fst fc = 1"
    using assms(1) by (auto dest: set_zip_leftD)
  from wealth_row_last_unit_growth[OF this, of w] sum_list_snd_zip[OF assms(2)]
  show ?thesis by simp
qed

lemma flat_wealth:
  assumes "initial req = 0" "annual_contribution req = 12000" "contribution_growth req = 0"
      and "SimRequest.years req = 1" "SimRequest.frequency req = 12"
      and "SimRequest.volatility req = 0" "SimRequest.expected_return req = 0"
      and "SimRequest.expense_ratio req = 0"
  shows "length (fst (simulate_wealth R env req)) = nat (SimRequest.n_sims req) \<and>
         (\<forall>row\<in>set (fst (simulate_wealth R env req)). length row = 13 \<and> last row = 12000)"
proof -
  let ?g0 = "case SimRequest.seed req of Some s \<Rightarrow> rng_seed R s | None \<Rightarrow> env"
  obtain z g1 where z: "randn R (nat (SimRequest.n_sims req)) 12 ?g0 = (z, g1)"
    by (cases "randn R (nat (SimRequest.n_sims req)) 12 ?g0")
  have shape: "length z = nat (SimRequest.n_sims req)" "\<forall>row\<in>set z. length row = 12"
    using randn_shape[of R "nat (SimRequest.n_sims req)" 12 ?g0] z by simp_all
  have w: "fst (simulate_wealth R env req)
           = map (\<lambda>zr. wealth_row 0 (zip (map (\<lambda>x. 1) zr) (replicate 12 1000))) z"
    using z assms by (simp add: simulate_wealth_def Let_def contrib_schedule_flat comp_def)
  have row: "length (wealth_row 0 (zip (map (\<lambda>x. 1) zr) (replicate 12 1000))) = 13 \<and>
             last (wealth_row 0 (zip (map (\<lambda>x. 1::real) zr) (replicate 12 1000))) = 12000"
    if "zr \<in> set z" for zr
  proof -
    have l: "length zr = 12" using shape(2) that by simp
    have "last (wealth_row 0 (zip (map (\<lambda>x. 1::real) zr) (replicate 12 1000)))
          = 0 + sum_list (replicate 12 (1000::real))"
      by (rule wealth_row_flat) (simp_all add: l)
    then show ?thesis by (simp add: wealth_row_length l sum_list_replicate)
  qed
  show ?thesis unfolding w using shape(1) row by simp
qed

lemma flat_paths:
  assumes sc: "initial req = 0" "annual_contribution req = 12000" "contribution_growth req = 0"
        "SimRequest.years req = 1" "SimRequest.frequency req = 12"
        "SimRequest.volatility req = 0" "SimRequest.expected_return req = 0"
        "SimRequest.expense_ratio req = 0"
      and n: "1 \<le> SimRequest.n_sims req" and infl: "0 \<le> SimRequest.inflation req"
  shows "\<exists>resp g'. simulate_paths R env req = Inr (resp, g') \<and>
           last (p50 (SimResponse.percentiles resp)) = 12000 \<and>
           median_final (SimResponse.summary resp) = 12000"
proof -
  obtain wealth cs g1 where sw: "simulate_wealth R env req = (wealth, cs, g1)"
    by (cases "simulate_wealth R env req")
  from flat_wealth[OF sc, of R env] sw
  have len: "length wealth = nat (SimRequest.n_sims req)"
    and rows: "\<forall>row\<in>set wealth. length row = 13 \<and> last row = 12000" by simp_all
  have ne: "wealth \<noteq> []" using len n by auto
  have guard: "simulate_guard req = None"
    using sc n infl by (simp add: simulate_guard_def)
  have T: "nat (SimRequest.years req * SimRequest.frequency req) = 12" using sc by simp
  have col: "\<forall>x\<in>set (column wealth 12). x = 12000"
  proof
    fix x assume "x \<in> set (column wealth 12)"
    then obtain row where r: "row \<in> set wealth" and x: "x = row ! 12"
      by (auto simp: column_def)
    from rows r have "length row = 13" "last row = 12000" by simp_all
    moreover from this have "last row = row ! 12"
      by (cases row rule: rev_cases) (simp_all add: nth_append)
    ultimately show "x = 12000" using x by simp
  qed
  have cne: "column wealth 12 \<noteq> []" using ne by (simp add: column_def)
  have p: "percentile (column wealth 12) 50 = 12000"
    by (rule percentile_const[OF cne col]) simp_all
  have fin: "\<forall>x\<in>set (map last wealth). x = 12000" using rows by auto
  have m: "median (map last wealth) = 12000"
    unfolding median_def by (rule percentile_const[OF _ fin]) (simp_all add: ne)
  have "last (p50 (SimResponse.percentiles (simulate_report req wealth cs))) = 12000"
    using p by (simp add: simulate_report_def Let_def T nan_to_num_def last_map
        percentile_axis0_def)
  moreover have "median_final (SimResponse.summary (simulate_report req wealth cs)) = 12000"
    using m by (simp add: simulate_report_def Let_def nan_to_num_def)
  moreover have "simulate_paths R env req = Inr (simulate_report req wealth cs, g1)"
    by (simp add: simulate_paths_def guard sw)
  ultimately show ?thesis by blast
qed







text \<open>
  Handed to \<^verbatim>\<open>simulate_paths\<close> directly, without the bounds of the request type,
  the single-path request gives 12000 as well.
\<close>

lemma flat_request_direct:
  "\<exists>resp g'. simulate_paths two_draws 0 flat_request = Inr (resp, g') \<and>
     last (p50 (SimResponse.percentiles resp)) = 12000 \<and>
     median_final (SimResponse.summary resp) = 12000"
  by (rule flat_paths) (simp_all add: flat_request_def)


section \<open>Determinism under a seed\<close>

text \<open>
  Claim C3.  When the request carries a seed, what a simulator returns does not depend
  on the state the global generator was left in, nor on the entropy of the system: two
  invocations with the same record produce the same ensemble and the same response
  (bands, summaries and, on the same calendar day, labels), and leave the generator in
  the same state.  This holds for the compound, drawdown and retirement simulators.
\<close>

theorem C3_seeded_runs_agree:
  assumes "SimRequest.seed sreq = Some s1" "DrawdownRequest.seed dreq = Some s2"
      and "FireRequest.seed freq = Some s3"
  shows "simulate_wealth R env1 sreq = simulate_wealth R env2 sreq \<and>
         simulate R env1 sreq = simulate R env2 sreq \<and>
         drawdown_prices R g1 dreq = drawdown_prices R g2 dreq \<and>
         drawdown R g1 today dreq = drawdown R g2 today dreq \<and>
         fire_wealth R g1 freq = fire_wealth R g2 freq \<and>
         fire R g1 today freq = fire R g2 today freq"
proof -
  have a: "simulate_wealth R env1 sreq = simulate_wealth R env2 sreq"
    by (simp add: simulate_wealth_def assms(1))
  have b: "drawdown_prices R g1 dreq = drawdown_prices R g2 dreq"
    by (simp add: drawdown_prices_def assms(2))
  have c: "fire_wealth R g1 freq = fire_wealth R g2 freq"
    by (simp add: fire_wealth_def assms(3))
  have a': "simulate R env1 sreq = simulate R env2 sreq"
    unfolding simulate_def simulate_paths_def a by (rule refl)
  have b': "drawdown R g1 today dreq = drawdown R g2 today dreq"
    unfolding drawdown_def b by (rule refl)
  have c': "fire R g1 today freq = fire R g2 today freq"
    unfolding fire_def c by (rule refl)
  from a a' b b' c c' show ?thesis by blast
qed

theorem C3_seeded_runs_agree_witness:
  "simulate two_draws 0 (flat_request\<lparr>SimRequest.n_sims := 50, SimRequest.seed := Some 7\<rparr>)
     = simulate two_draws 5 (flat_request\<lparr>SimRequest.n_sims := 50, SimRequest.seed := Some 7\<rparr>) \<and>
   drawdown two_draws 0 day0 dip_request = drawdown two_draws 5 day0 dip_request \<and>
   fire two_draws 0 day0 (quarterly_request\<lparr>FireRequest.seed := Some 7\<rparr>)
     = fire two_draws 5 day0 (quarterly_request\<lparr>FireRequest.seed := Some 7\<rparr>)"
  using C3_seeded_runs_agree[of
      "flat_request\<lparr>SimRequest.n_sims := 50, SimRequest.seed := Some 7\<rparr>" 7
      dip_request 0 "quarterly_request\<lparr>FireRequest.seed := Some 7\<rparr>" 7 two_draws 0 5 0 5 day0]
  by (simp add: dip_request_def)


text \<open>
  The seed is what makes the runs agree: without one, the drawdown simulator goes on
  from the state it finds, and two runs from different states differ.
\<close>

lemma two_draws_from_1: "draws two_draws 2 (Suc 0) = ([ln (3 / 2), ln (3 / 2)], 3)"
  by (simp add: two_draws_def eval_nat_numeral)

lemma unseeded_runs_may_differ:
  "drawdown_prices two_draws 0 (dip_request\<lparr>DrawdownRequest.seed := None\<rparr>)
     \<noteq> drawdown_prices two_draws 1 (dip_request\<lparr>DrawdownRequest.seed := None\<rparr>)"
  by (simp add: drawdown_prices_def dip_request_def Let_def price_row_def dip_z two_draws_from_1)



end
